theory Spec2Isabelle
  imports Main
begin

section \<open>The icon downloader \<open>download-icons.js\<close>\<close>

subsection \<open>Data model\<close>

text \<open>
  A catalog entry of \<open>ICONS\<close>: \<open>{ key, hasTheme, simpleIconsSlug }\<close>; the slug is
  optional (\<open>undefined\<close> when the entry does not declare it).
\<close>

record icon =
  key :: string
  hasTheme :: bool
  simpleIconsSlug :: "string option"

definition plain :: "string \<Rightarrow> icon" where
  "plain k = \<lparr>key = k, hasTheme = False, simpleIconsSlug = None\<rparr>"

definition themed :: "string \<Rightarrow> icon" where
  "themed k = \<lparr>key = k, hasTheme = True, simpleIconsSlug = None\<rparr>"

definition plain_slug :: "string \<Rightarrow> string \<Rightarrow> icon" where
  "plain_slug k s = \<lparr>key = k, hasTheme = False, simpleIconsSlug = Some s\<rparr>"

definition themed_slug :: "string \<Rightarrow> string \<Rightarrow> icon" where
  "themed_slug k s = \<lparr>key = k, hasTheme = True, simpleIconsSlug = Some s\<rparr>"

text \<open>The catalog, lines 24 to 101 of the script, in source order.\<close>

definition ICONS :: "icon list" where
  "ICONS =
   [plain ''typescript'', plain ''js'', plain ''python'', plain ''php'', plain ''java'',
    plain_slug ''html5'' ''html5'', plain_slug ''css3'' ''css3'',
    plain_slug ''rust'' ''rust'', plain_slug ''cpp'' ''cplusplus'',
    plain ''nodejs'', plain ''bun'',
    plain ''react'', themed ''nextjs2'', plain ''tailwindcss'', themed ''shadcn-ui'',
    themed ''radixui'', themed ''base-ui'', plain ''motion'', themed ''tanstack'',
    plain ''mobx-state-tree'', plain ''redux'',
    plain ''antd'',
    themed ''react-router'', plain ''react-navigation'',
    plain ''loopback'', plain ''laravel'', themed_slug ''expressjs'' ''express'',
    plain_slug ''honojs'' ''hono'',
    plain ''mysql'', plain ''mongodb'', plain ''redis'',
    plain_slug ''postgresql'' ''postgresql'',
    themed_slug ''prisma'' ''prisma'', plain_slug ''drizzle'' ''drizzle'',
    plain ''git'', plain ''docker'',
    themed_slug ''vercel'' ''vercel'', plain_slug ''aws'' ''amazonwebservices'',
    plain_slug ''supabase'' ''supabase'',
    plain_slug ''graphql'' ''graphql'',
    themed_slug ''clerk'' ''clerk'',
    plain_slug ''stripe'' ''stripe'',
    plain ''figma'', plain ''ps'',
    themed ''chatgpt'']"

definition CHANHDAI_BASE :: string where
  "CHANHDAI_BASE = ''https://assets.chanhdai.com/images/tech-stack-icons''"

definition SIMPLE_ICONS_BASE :: string where
  "SIMPLE_ICONS_BASE = ''https://cdn.simpleicons.org''"

subsection \<open>The environment: network and paths\<close>

text \<open>
  What \<open>https.get\<close> delivers for one request. Either the request itself emits
  \<open>'error'\<close> (DNS failure, connection reset), or a response arrives with a status
  code, an optional \<open>Location\<close> header and a body stream: the chunks of the \<open>'data'\<close>
  events, closed by \<open>'end'\<close> (\<open>ended = True\<close>) or broken by \<open>'error'\<close>
  (\<open>ended = False\<close>).
\<close>

datatype response =
  RequestError
| Response (statusCode: nat) (location: "string option") (chunks: "string list") (ended: bool)

text \<open>
  The parts of the run the script does not define: the directory of the script
  (\<open>__dirname\<close>), Node's \<open>path.join\<close>, and the network. The network may answer the
  same URL differently over time: \<open>https_get e n url\<close> is the answer to \<open>url\<close> when
  \<open>n\<close> requests were sent before it.
\<close>

record env =
  dirname :: string
  path_join :: "string \<Rightarrow> string \<Rightarrow> string"
  https_get :: "nat \<Rightarrow> string \<Rightarrow> response"

definition OUTPUT_DIR :: "env \<Rightarrow> string" where
  "OUTPUT_DIR e = path_join e (dirname e) ''../public/images/tech-stack-icons''"

subsection \<open>The state: files, requests sent, lines printed\<close>

text \<open>
  \<open>files\<close> maps a path to the content of the file there; \<open>requests\<close> is the list
  of URLs passed to \<open>https.get\<close> so far, oldest first; \<open>stdout\<close> is the list of
  arguments of \<open>console.log\<close> so far, oldest first. The file system is one
  where writing into the output directory succeeds (the script creates the directory
  before anything else), so \<open>writeFileSync\<close> stores the content, and the only way
  out of a \<open>try\<close> block of \<open>downloadIcon\<close> is a rejected \<open>download\<close>.
\<close>

record world =
  files :: "string \<rightharpoonup> string"
  requests :: "string list"
  stdout :: "string list"

definition existsSync :: "string \<Rightarrow> world \<Rightarrow> bool" where
  "existsSync p w = (files w p \<noteq> None)"

definition writeFileSync :: "string \<Rightarrow> string \<Rightarrow> world \<Rightarrow> world" where
  "writeFileSync p d w = w\<lparr>files := (files w)(p \<mapsto> d)\<rparr>"

definition console_log :: "string \<Rightarrow> world \<Rightarrow> world" where
  "console_log l w = w\<lparr>stdout := stdout w @ [l]\<rparr>"

definition sent :: "string \<Rightarrow> world \<Rightarrow> world" where
  "sent url w = w\<lparr>requests := requests w @ [url]\<rparr>"

subsection \<open>\<open>download\<close>\<close>

text \<open>The two ways the promise of \<open>download\<close> rejects.\<close>

datatype error =
  HTTP nat
| Transport

text \<open>
  Line 113: the response is a redirect that is followed when the status is in
  \<open>[300, 400)\<close> and \<open>response.headers.location\<close> is truthy, that is, present and not
  the empty string.
\<close>

definition redirect :: "response \<Rightarrow> string option" where
  "redirect r =
     (case r of
        RequestError \<Rightarrow> None
      | Response st loc cs fin \<Rightarrow>
          (case loc of
             None \<Rightarrow> None
           | Some l \<Rightarrow> if 300 \<le> st \<and> st < 400 \<and> l \<noteq> [] then Some l else None))"

text \<open>Lines 117 to 126: how a response that is not followed settles the promise.\<close>

definition settle :: "response \<Rightarrow> error + string" where
  "settle r =
     (case r of
        RequestError \<Rightarrow> Inl Transport
      | Response st loc cs fin \<Rightarrow>
          if st \<noteq> 200 then Inl (HTTP st)
          else if fin then Inr (concat cs)
          else Inl Transport)"

text \<open>
  \<open>download\<close> may follow redirects for ever, so it is a partial function: \<open>None\<close>
  means that the promise never settles.
\<close>

partial_function (option) download ::
  "env \<Rightarrow> string \<Rightarrow> world \<Rightarrow> ((error + string) \<times> world) option" where
  "download e url w =
     (case redirect (https_get e (length (requests w)) url) of
        Some l \<Rightarrow> download e l (sent url w)
      | None \<Rightarrow> Some (settle (https_get e (length (requests w)) url), sent url w))"

declare download.simps [code]

subsection \<open>\<open>downloadIcon\<close>\<close>

text \<open>The marks \<open>U+2713\<close> and \<open>U+2717\<close> of the progress lines, as UTF-8 bytes.\<close>

definition tick :: string where
  "tick = [CHR 0xE2, CHR 0x9C, CHR 0x93]"

definition cross :: string where
  "cross = [CHR 0xE2, CHR 0x9C, CHR 0x97]"

definition filename_of :: "string \<Rightarrow> string \<Rightarrow> string" where
  "filename_of k suffix = (if suffix \<noteq> [] then k @ suffix @ ''.svg'' else k @ ''.svg'')"

definition outputPath :: "env \<Rightarrow> string \<Rightarrow> string \<Rightarrow> string" where
  "outputPath e k suffix = path_join e (OUTPUT_DIR e) (filename_of k suffix)"

text \<open>
  Line 150, \<open>icon?.simpleIconsSlug && !suffix\<close>: the first entry of the catalog with
  this key exists, its slug is truthy (declared and not empty), and the suffix is
  empty. The result is the slug to ask the fallback for.
\<close>

definition fallback_slug :: "string \<Rightarrow> string \<Rightarrow> string option" where
  "fallback_slug k suffix =
     (case find (\<lambda>i. key i = k) ICONS of
        None \<Rightarrow> None
      | Some i \<Rightarrow>
          (case simpleIconsSlug i of
             None \<Rightarrow> None
           | Some s \<Rightarrow> if s \<noteq> [] \<and> suffix = [] then Some s else None))"

definition downloadIcon :: "env \<Rightarrow> string \<Rightarrow> string \<Rightarrow> world \<Rightarrow> (bool \<times> world) option" where
  "downloadIcon e k suffix w =
     (if existsSync (outputPath e k suffix) w then
        Some (True, console_log (tick @ '' '' @ filename_of k suffix @ '' (exists)'') w)
      else
        (case download e (CHANHDAI_BASE @ ''/'' @ filename_of k suffix) w of
           None \<Rightarrow> None
         | Some (Inr svg, w1) \<Rightarrow>
             Some (True,
               console_log (tick @ '' '' @ filename_of k suffix @ '' (chanhdai)'')
                 (writeFileSync (outputPath e k suffix) svg w1))
         | Some (Inl err, w1) \<Rightarrow>
             (case fallback_slug k suffix of
                Some slug \<Rightarrow>
                  (case download e (SIMPLE_ICONS_BASE @ ''/'' @ slug) w1 of
                     None \<Rightarrow> None
                   | Some (Inr svg, w2) \<Rightarrow>
                       Some (True,
                         console_log (tick @ '' '' @ filename_of k suffix @ '' (simpleicons)'')
                           (writeFileSync (outputPath e k suffix) svg w2))
                   | Some (Inl err2, w2) \<Rightarrow>
                       Some (False,
                         console_log (cross @ '' '' @ filename_of k suffix @ '' (not found)'') w2))
              | None \<Rightarrow>
                  Some (False,
                    console_log (cross @ '' '' @ filename_of k suffix @ '' (not found)'') w1))))"

subsection \<open>\<open>main\<close>\<close>

text \<open>
  The \<open>for\<close> loop of lines 175 to 186 over the rest of the catalog, with the two
  counters \<open>success\<close> and \<open>failed\<close>.
\<close>

fun main_loop ::
  "env \<Rightarrow> icon list \<Rightarrow> nat \<times> nat \<Rightarrow> world \<Rightarrow> ((nat \<times> nat) \<times> world) option" where
  "main_loop e [] (success, failed) w = Some ((success, failed), w)"
| "main_loop e (i # rest) (success, failed) w =
     (if hasTheme i then
        (case downloadIcon e (key i) ''-light'' w of
           None \<Rightarrow> None
         | Some (lightOk, w1) \<Rightarrow>
             (case downloadIcon e (key i) ''-dark'' w1 of
                None \<Rightarrow> None
              | Some (darkOk, w2) \<Rightarrow>
                  if lightOk \<and> darkOk then main_loop e rest (success + 1, failed) w2
                  else main_loop e rest (success, failed + 1) w2))
      else
        (case downloadIcon e (key i) [] w of
           None \<Rightarrow> None
         | Some (ok, w1) \<Rightarrow>
             if ok then main_loop e rest (success + 1, failed) w1
             else main_loop e rest (success, failed + 1) w1))"

text \<open>A number in a template literal: its decimal digits.\<close>

fun digits :: "nat \<Rightarrow> string" where
  "digits n = (if n < 10 then [char_of (48 + n)] else digits (n div 10) @ [char_of (48 + n mod 10)])"

definition nl :: string where
  "nl = [CHR 0x0A]"

definition main :: "env \<Rightarrow> world \<Rightarrow> ((nat \<times> nat) \<times> world) option" where
  "main e w =
     (case main_loop e ICONS (0, 0)
             (console_log (''Output: '' @ OUTPUT_DIR e @ nl)
               (console_log (''Downloading tech stack icons...'' @ nl) w)) of
        None \<Rightarrow> None
      | Some ((success, failed), w1) \<Rightarrow>
          Some ((success, failed),
            console_log ''3. Update tech-stack.tsx to use /images/tech-stack-icons/ instead of external CDN''
              (console_log ''2. For themed icons, create -light.svg and -dark.svg variants''
                (console_log ''1. For missing icons, download manually from https://simpleicons.org''
                  (console_log (nl @ ''Next steps:'')
                    (console_log (nl @ ''Done! '' @ digits success @ '' icons downloaded, ''
                                    @ digits failed @ '' failed.'') w1))))))"

subsection \<open>Redirect chains\<close>

text \<open>
  \<open>chain e n url us r\<close>: when \<open>n\<close> requests were sent before, the request for
  \<open>url\<close> and the redirects that follow it visit the URLs \<open>us\<close> in this order, and
  the last of them is answered by \<open>r\<close>, a response that is not followed: \<open>r\<close> is
  the final response after the redirects.
\<close>

inductive chain :: "env \<Rightarrow> nat \<Rightarrow> string \<Rightarrow> string list \<Rightarrow> response \<Rightarrow> bool" where
  stop: "redirect (https_get e n url) = None \<Longrightarrow> chain e n url [url] (https_get e n url)"
| hop: "redirect (https_get e n url) = Some l \<Longrightarrow> chain e (Suc n) l us r \<Longrightarrow>
        chain e n url (url # us) r"

subsection \<open>Target files and progress lines\<close>

text \<open>The files of the catalog in the order of the loop, each as key and suffix.\<close>

fun targets :: "icon list \<Rightarrow> (string \<times> string) list" where
  "targets [] = []"
| "targets (i # rest) =
     (if hasTheme i then [(key i, ''-light''), (key i, ''-dark'')] else [(key i, [])]) @ targets rest"

text \<open>The four lines \<open>downloadIcon\<close> can print for a file name.\<close>

definition progress_lines :: "string \<Rightarrow> string list" where
  "progress_lines fn =
     [tick @ '' '' @ fn @ '' (exists)'',
      tick @ '' '' @ fn @ '' (chanhdai)'',
      tick @ '' '' @ fn @ '' (simpleicons)'',
      cross @ '' '' @ fn @ '' (not found)'']"

text \<open>
  What one call of \<open>downloadIcon\<close> for the file name \<open>fn\<close> leaves behind: the
  requests it sent and the line it printed. Either it sent nothing and printed that the
  file exists, or its first request was for \<open>fn\<close> at the primary source and it
  printed one of the three other progress lines of \<open>fn\<close>.
\<close>

definition resolved_as :: "string \<Rightarrow> string list \<Rightarrow> string \<Rightarrow> bool" where
  "resolved_as fn seg line =
     (case seg of
        [] \<Rightarrow> line = tick @ '' '' @ fn @ '' (exists)''
      | u # vs \<Rightarrow> u = CHANHDAI_BASE @ ''/'' @ fn \<and> line \<in> set (tl (progress_lines fn)))"

subsection \<open>Example environments\<close>

text \<open>
  Concrete environments on which the properties below are run. Paths are joined with
  a slash, the script lives in \<open>/site/scripts\<close>.
\<close>

definition slash_join :: "string \<Rightarrow> string \<Rightarrow> string" where
  "slash_join a b = a @ ''/'' @ b"

text \<open>
  A network where the primary source has no \<open>rust.svg\<close> but the fallback has the slug
  \<open>rust\<close>, where \<open>vercel-light.svg\<close> is redirected to a mirror that has it, and
  where everything else is answered by 404.
\<close>

definition demo_net :: "nat \<Rightarrow> string \<Rightarrow> response" where
  "demo_net n url =
     (if url = ''https://cdn.simpleicons.org/rust'' then
        Response 200 None [''<svg>'', ''rust</svg>''] True
      else if url = ''https://assets.chanhdai.com/images/tech-stack-icons/vercel-light.svg'' then
        Response 302 (Some ''https://mirror.example/vercel-light.svg'') [''moved''] True
      else if url = ''https://mirror.example/vercel-light.svg'' then
        Response 200 None [''<svg>light</svg>''] True
      else Response 404 None [''Not Found''] True)"

definition demo :: env where
  "demo = \<lparr>dirname = ''/site/scripts'', path_join = slash_join, https_get = demo_net\<rparr>"

text \<open>
  A network that is reached but has none of the files: every request is answered
  with 404.
\<close>

definition all_404 :: env where
  "all_404 = \<lparr>dirname = ''/site/scripts'', path_join = slash_join,
               https_get = (\<lambda>n url. Response 404 None [''Not Found''] True)\<rparr>"



text \<open>The state before a first run: no file, no request, no output.\<close>

definition fresh :: world where
  "fresh = \<lparr>files = Map.empty, requests = [], stdout = []\<rparr>"

text \<open>A state in which \<open>rust.svg\<close> is already in the output directory.\<close>

definition cached :: world where
  "cached = \<lparr>files = [''/site/scripts/../public/images/tech-stack-icons/rust.svg'' \<mapsto> ''old content''],
              requests = [], stdout = []\<rparr>"

text \<open>The state after \<open>vercel-light.svg\<close> was fetched in the example network.\<close>

definition light_done :: world where
  "light_done =
     \<lparr>files = [''/site/scripts/../public/images/tech-stack-icons/vercel-light.svg'' \<mapsto> ''<svg>light</svg>''],
      requests = [''https://assets.chanhdai.com/images/tech-stack-icons/vercel-light.svg'',
                  ''https://mirror.example/vercel-light.svg''],
      stdout = [tick @ '' vercel-light.svg (chanhdai)'']\<rparr>"

text \<open>
  The requests \<open>downloadIcon\<close> sends for a missing file when every fetch fails: the
  primary URL, then the fallback URL where the fallback is eligible.
\<close>

definition failing_requests :: "string \<Rightarrow> string \<Rightarrow> string list" where
  "failing_requests k s =
     (CHANHDAI_BASE @ ''/'' @ filename_of k s)
     # (case fallback_slug k s of None \<Rightarrow> [] | Some slug \<Rightarrow> [SIMPLE_ICONS_BASE @ ''/'' @ slug])"

section \<open>Properties\<close>

subsection \<open>\<open>download\<close> and redirect chains\<close>

lemma sent_simps [simp]:
  "files (sent u w) = files w"
  "stdout (sent u w) = stdout w"
  "requests (sent u w) = requests w @ [u]"
  by (simp_all add: sent_def)

lemma console_log_simps [simp]:
  "files (console_log l w) = files w"
  "requests (console_log l w) = requests w"
  "stdout (console_log l w) = stdout w @ [l]"
  by (simp_all add: console_log_def)

lemma writeFileSync_simps [simp]:
  "files (writeFileSync p d w) = (files w)(p \<mapsto> d)"
  "requests (writeFileSync p d w) = requests w"
  "stdout (writeFileSync p d w) = stdout w"
  by (simp_all add: writeFileSync_def)


text \<open>Conversely, \<open>download\<close> returns only at the end of a chain.\<close>

lemma download_chain:
  assumes "download e url w = Some y"
  shows "\<exists>us r. chain e (length (requests w)) url us r
           \<and> y = (settle r, w\<lparr>requests := requests w @ us\<rparr>)"
  using assms
proof (induction rule: download.raw_induct[rotated 1, consumes 1, case_names step])
  case (step dl e url w y)
  show ?case
  proof (cases "redirect (https_get e (length (requests w)) url)")
    case None
    with step(2) have "y = (settle (https_get e (length (requests w)) url), sent url w)"
      by simp
    moreover have "chain e (length (requests w)) url [url] (https_get e (length (requests w)) url)"
      using None by (rule chain.stop)
    ultimately show ?thesis by (auto simp: sent_def)
  next
    case (Some l)
    with step(2) have "dl e l (sent url w) = Some y" by simp
    from step(1)[OF this] obtain us r where
      c: "chain e (length (requests (sent url w))) l us r" and
      y: "y = (settle r, (sent url w)\<lparr>requests := requests (sent url w) @ us\<rparr>)" by blast
    from c have "chain e (Suc (length (requests w))) l us r" by simp
    with Some have "chain e (length (requests w)) url (url # us) r" by (rule chain.hop)
    with y show ?thesis by (auto simp: sent_def)
  qed
qed

lemma chain_first: "chain e n url us r \<Longrightarrow> \<exists>vs. us = url # vs"
  by (induction rule: chain.induct) auto

text \<open>\<open>download\<close> touches neither files nor output, and its first request is for its URL.\<close>

lemma download_frame:
  assumes "download e url w = Some (x, w')"
  shows "files w' = files w \<and> stdout w' = stdout w \<and> (\<exists>vs. requests w' = requests w @ url # vs)"
proof -
  from download_chain[OF assms] obtain us r where
    c: "chain e (length (requests w)) url us r" and
    w': "w' = w\<lparr>requests := requests w @ us\<rparr>" by auto
  from chain_first[OF c] obtain vs where "us = url # vs" ..
  with w' show ?thesis by simp
qed

subsection \<open>\<open>downloadIcon\<close>, case by case\<close>

lemma downloadIcon_exists:
  "existsSync (outputPath e k s) w \<Longrightarrow>
   downloadIcon e k s w = Some (True, console_log (tick @ '' '' @ filename_of k s @ '' (exists)'') w)"
  by (simp add: downloadIcon_def)

lemma downloadIcon_cases [consumes 1, case_names exists primary fallback failed_fallback failed]:
  assumes "downloadIcon e k s w = Some (ok, w')"
  obtains
    "existsSync (outputPath e k s) w" "ok"
    "w' = console_log (tick @ '' '' @ filename_of k s @ '' (exists)'') w"
  | svg w1 where "\<not> existsSync (outputPath e k s) w"
    "download e (CHANHDAI_BASE @ ''/'' @ filename_of k s) w = Some (Inr svg, w1)" "ok"
    "w' = console_log (tick @ '' '' @ filename_of k s @ '' (chanhdai)'')
            (writeFileSync (outputPath e k s) svg w1)"
  | err w1 slug svg w2 where "\<not> existsSync (outputPath e k s) w"
    "download e (CHANHDAI_BASE @ ''/'' @ filename_of k s) w = Some (Inl err, w1)"
    "fallback_slug k s = Some slug"
    "download e (SIMPLE_ICONS_BASE @ ''/'' @ slug) w1 = Some (Inr svg, w2)" "ok"
    "w' = console_log (tick @ '' '' @ filename_of k s @ '' (simpleicons)'')
            (writeFileSync (outputPath e k s) svg w2)"
  | err w1 slug err2 w2 where "\<not> existsSync (outputPath e k s) w"
    "download e (CHANHDAI_BASE @ ''/'' @ filename_of k s) w = Some (Inl err, w1)"
    "fallback_slug k s = Some slug"
    "download e (SIMPLE_ICONS_BASE @ ''/'' @ slug) w1 = Some (Inl err2, w2)" "\<not> ok"
    "w' = console_log (cross @ '' '' @ filename_of k s @ '' (not found)'') w2"
  | err w1 where "\<not> existsSync (outputPath e k s) w"
    "download e (CHANHDAI_BASE @ ''/'' @ filename_of k s) w = Some (Inl err, w1)"
    "fallback_slug k s = None" "\<not> ok"
    "w' = console_log (cross @ '' '' @ filename_of k s @ '' (not found)'') w1"
  using assms unfolding downloadIcon_def
  by (auto split: if_splits option.splits sum.splits prod.splits)

lemma downloadIcon_files:
  assumes "downloadIcon e k s w = Some (ok, w')"
  shows "if ok \<and> \<not> existsSync (outputPath e k s) w
         then \<exists>svg. files w' = (files w)(outputPath e k s \<mapsto> svg)
         else files w' = files w"
  using assms
proof (cases rule: downloadIcon_cases)
  case exists then show ?thesis by simp
next
  case (primary svg w1)
  with download_frame[OF primary(2)] show ?thesis by auto
next
  case (fallback err w1 slug svg w2)
  with download_frame[OF fallback(2)] download_frame[OF fallback(4)] show ?thesis by auto
next
  case (failed_fallback err w1 slug err2 w2)
  with download_frame[OF failed_fallback(2)] download_frame[OF failed_fallback(4)] show ?thesis by auto
next
  case (failed err w1)
  with download_frame[OF failed(2)] show ?thesis by auto
qed

lemma downloadIcon_keeps:
  assumes "downloadIcon e k s w = Some (ok, w')" "files w p = Some d"
  shows "files w' p = Some d"
  using downloadIcon_files[OF assms(1)] assms(2)
  by (auto simp: existsSync_def split: if_splits)

lemma downloadIcon_ok_iff:
  assumes "downloadIcon e k s w = Some (ok, w')"
  shows "ok \<longleftrightarrow> existsSync (outputPath e k s) w'"
proof (cases "existsSync (outputPath e k s) w")
  case True
  from downloadIcon_exists[OF True, of] assms have "ok" by simp
  moreover from downloadIcon_files[OF assms] True have "files w' = files w" by simp
  ultimately show ?thesis using True by (simp add: existsSync_def)
next
  case False
  with downloadIcon_files[OF assms] show ?thesis
    by (auto simp: existsSync_def split: if_splits)
qed

subsection \<open>The loop of \<open>main\<close>, step by step\<close>

lemma main_loop_Cons_cases [consumes 1, case_names themed plain]:
  assumes "main_loop e (i # rest) (s, f) w = Some r"
  obtains lightOk w1 darkOk w2 where "hasTheme i"
    "downloadIcon e (key i) ''-light'' w = Some (lightOk, w1)"
    "downloadIcon e (key i) ''-dark'' w1 = Some (darkOk, w2)"
    "main_loop e rest (if lightOk \<and> darkOk then (s + 1, f) else (s, f + 1)) w2 = Some r"
  | ok w1 where "\<not> hasTheme i"
    "downloadIcon e (key i) [] w = Some (ok, w1)"
    "main_loop e rest (if ok then (s + 1, f) else (s, f + 1)) w1 = Some r"
proof (cases "hasTheme i")
  case True
  with assms obtain lightOk w1 where l: "downloadIcon e (key i) ''-light'' w = Some (lightOk, w1)"
    by (cases "downloadIcon e (key i) ''-light'' w") auto
  with assms True obtain darkOk w2 where d: "downloadIcon e (key i) ''-dark'' w1 = Some (darkOk, w2)"
    by (cases "downloadIcon e (key i) ''-dark'' w1") auto
  from assms True l d
  have "main_loop e rest (if lightOk \<and> darkOk then (s + 1, f) else (s, f + 1)) w2 = Some r"
    by (cases lightOk; cases darkOk) simp_all
  with True l d show ?thesis by (rule that(1))
next
  case False
  with assms obtain ok w1 where o: "downloadIcon e (key i) [] w = Some (ok, w1)"
    by (cases "downloadIcon e (key i) [] w") auto
  from assms False o
  have "main_loop e rest (if ok then (s + 1, f) else (s, f + 1)) w1 = Some r"
    by (cases ok) simp_all
  with False o show ?thesis by (rule that(2))
qed

lemma main_loop_counts:
  "main_loop e icons (s, f) w = Some ((s', f'), w') \<Longrightarrow>
   s' + f' = s + f + length icons \<and> s \<le> s' \<and> f \<le> f'"
proof (induction icons arbitrary: s f w)
  case Nil
  then show ?case by simp
next
  case (Cons i rest)
  from Cons.prems show ?case
  proof (cases rule: main_loop_Cons_cases)
    case (themed lightOk w1 darkOk w2)
    show ?thesis
    proof (cases "lightOk \<and> darkOk")
      case True
      with themed(4) have "main_loop e rest (s + 1, f) w2 = Some ((s', f'), w')" by simp
      from Cons.IH[OF this] show ?thesis by simp
    next
      case False
      with themed(4) have "main_loop e rest (s, f + 1) w2 = Some ((s', f'), w')" by simp
      from Cons.IH[OF this] show ?thesis by simp
    qed
  next
    case (plain ok w1)
    show ?thesis
    proof (cases ok)
      case True
      with plain(3) have "main_loop e rest (s + 1, f) w1 = Some ((s', f'), w')" by simp
      from Cons.IH[OF this] show ?thesis by simp
    next
      case False
      with plain(3) have "main_loop e rest (s, f + 1) w1 = Some ((s', f'), w')" by simp
      from Cons.IH[OF this] show ?thesis by simp
    qed
  qed
qed


subsection \<open>The trace of a run\<close>

lemma downloadIcon_trace:
  assumes "downloadIcon e k s w = Some (ok, w')"
  shows "\<exists>seg line. requests w' = requests w @ seg \<and> stdout w' = stdout w @ [line]
           \<and> resolved_as (filename_of k s) seg line"
  using assms
proof (cases rule: downloadIcon_cases)
  case exists
  then have "requests w' = requests w @ []" "stdout w' = stdout w @ [tick @ '' '' @ filename_of k s @ '' (exists)'']"
    "resolved_as (filename_of k s) [] (tick @ '' '' @ filename_of k s @ '' (exists)'')"
    by (simp_all add: resolved_as_def)
  then show ?thesis by blast
next
  case (primary svg w1)
  from download_frame[OF primary(2)] obtain vs where
    "requests w1 = requests w @ (CHANHDAI_BASE @ ''/'' @ filename_of k s) # vs" "stdout w1 = stdout w"
    by blast
  with primary(4) have "requests w' = requests w @ (CHANHDAI_BASE @ ''/'' @ filename_of k s) # vs"
    "stdout w' = stdout w @ [tick @ '' '' @ filename_of k s @ '' (chanhdai)'']"
    "resolved_as (filename_of k s) ((CHANHDAI_BASE @ ''/'' @ filename_of k s) # vs)
       (tick @ '' '' @ filename_of k s @ '' (chanhdai)'')"
    by (simp_all add: resolved_as_def progress_lines_def)
  then show ?thesis by blast
next
  case (fallback err w1 slug svg w2)
  from download_frame[OF fallback(2)] obtain vs where
    "requests w1 = requests w @ (CHANHDAI_BASE @ ''/'' @ filename_of k s) # vs" "stdout w1 = stdout w"
    by blast
  moreover from download_frame[OF fallback(4)] obtain vs' where
    "requests w2 = requests w1 @ (SIMPLE_ICONS_BASE @ ''/'' @ slug) # vs'" "stdout w2 = stdout w1"
    by blast
  ultimately have "requests w' = requests w @ (CHANHDAI_BASE @ ''/'' @ filename_of k s) # (vs @ (SIMPLE_ICONS_BASE @ ''/'' @ slug) # vs')"
    "stdout w' = stdout w @ [tick @ '' '' @ filename_of k s @ '' (simpleicons)'']"
    "resolved_as (filename_of k s) ((CHANHDAI_BASE @ ''/'' @ filename_of k s) # (vs @ (SIMPLE_ICONS_BASE @ ''/'' @ slug) # vs'))
       (tick @ '' '' @ filename_of k s @ '' (simpleicons)'')"
    using fallback(6) by (simp_all add: resolved_as_def progress_lines_def)
  then show ?thesis by blast
next
  case (failed_fallback err w1 slug err2 w2)
  from download_frame[OF failed_fallback(2)] obtain vs where
    "requests w1 = requests w @ (CHANHDAI_BASE @ ''/'' @ filename_of k s) # vs" "stdout w1 = stdout w"
    by blast
  moreover from download_frame[OF failed_fallback(4)] obtain vs' where
    "requests w2 = requests w1 @ (SIMPLE_ICONS_BASE @ ''/'' @ slug) # vs'" "stdout w2 = stdout w1"
    by blast
  ultimately have "requests w' = requests w @ (CHANHDAI_BASE @ ''/'' @ filename_of k s) # (vs @ (SIMPLE_ICONS_BASE @ ''/'' @ slug) # vs')"
    "stdout w' = stdout w @ [cross @ '' '' @ filename_of k s @ '' (not found)'']"
    "resolved_as (filename_of k s) ((CHANHDAI_BASE @ ''/'' @ filename_of k s) # (vs @ (SIMPLE_ICONS_BASE @ ''/'' @ slug) # vs'))
       (cross @ '' '' @ filename_of k s @ '' (not found)'')"
    using failed_fallback(6) by (simp_all add: resolved_as_def progress_lines_def)
  then show ?thesis by blast
next
  case (failed err w1)
  from download_frame[OF failed(2)] obtain vs where
    "requests w1 = requests w @ (CHANHDAI_BASE @ ''/'' @ filename_of k s) # vs" "stdout w1 = stdout w"
    by blast
  with failed(5) have "requests w' = requests w @ (CHANHDAI_BASE @ ''/'' @ filename_of k s) # vs"
    "stdout w' = stdout w @ [cross @ '' '' @ filename_of k s @ '' (not found)'']"
    "resolved_as (filename_of k s) ((CHANHDAI_BASE @ ''/'' @ filename_of k s) # vs)
       (cross @ '' '' @ filename_of k s @ '' (not found)'')"
    by (simp_all add: resolved_as_def progress_lines_def)
  then show ?thesis by blast
qed

lemma main_loop_trace:
  assumes "main_loop e icons c w = Some (c', w')"
  shows "\<exists>tr. requests w' = requests w @ concat (map fst tr)
           \<and> stdout w' = stdout w @ map snd tr
           \<and> list_all2 (\<lambda>(k, s) (seg, line). resolved_as (filename_of k s) seg line) (targets icons) tr"
  using assms
proof (induction icons arbitrary: c w)
  case Nil
  then have "w' = w" by (cases c) simp
  then have "requests w' = requests w @ concat (map fst [])" "stdout w' = stdout w @ map snd []"
    "list_all2 (\<lambda>(k, s) (seg, line). resolved_as (filename_of k s) seg line) (targets []) []"
    by simp_all
  then show ?case by blast
next
  case (Cons i rest)
  obtain s f where c: "c = (s, f)" by (cases c)
  from Cons.prems[unfolded c] show ?case
  proof (cases rule: main_loop_Cons_cases)
    case (themed lightOk w1 darkOk w2)
    from downloadIcon_trace[OF themed(2)] obtain seg1 line1 where
      t1: "requests w1 = requests w @ seg1" "stdout w1 = stdout w @ [line1]"
          "resolved_as (filename_of (key i) ''-light'') seg1 line1" by blast
    from downloadIcon_trace[OF themed(3)] obtain seg2 line2 where
      t2: "requests w2 = requests w1 @ seg2" "stdout w2 = stdout w1 @ [line2]"
          "resolved_as (filename_of (key i) ''-dark'') seg2 line2" by blast
    from Cons.IH[OF themed(4)] obtain tr where
      t3: "requests w' = requests w2 @ concat (map fst tr)" "stdout w' = stdout w2 @ map snd tr"
          "list_all2 (\<lambda>(k, s) (seg, line). resolved_as (filename_of k s) seg line) (targets rest) tr"
      by blast
    let ?tr = "(seg1, line1) # (seg2, line2) # tr"
    from t1 t2 t3 themed(1) have "requests w' = requests w @ concat (map fst ?tr)"
      "stdout w' = stdout w @ map snd ?tr"
      "list_all2 (\<lambda>(k, s) (seg, line). resolved_as (filename_of k s) seg line) (targets (i # rest)) ?tr"
      by simp_all
    then show ?thesis by blast
  next
    case (plain ok w1)
    from downloadIcon_trace[OF plain(2)] obtain seg1 line1 where
      t1: "requests w1 = requests w @ seg1" "stdout w1 = stdout w @ [line1]"
          "resolved_as (filename_of (key i) []) seg1 line1" by blast
    from Cons.IH[OF plain(3)] obtain tr where
      t3: "requests w' = requests w1 @ concat (map fst tr)" "stdout w' = stdout w1 @ map snd tr"
          "list_all2 (\<lambda>(k, s) (seg, line). resolved_as (filename_of k s) seg line) (targets rest) tr"
      by blast
    let ?tr = "(seg1, line1) # tr"
    from t1 t3 plain(1) have "requests w' = requests w @ concat (map fst ?tr)"
      "stdout w' = stdout w @ map snd ?tr"
      "list_all2 (\<lambda>(k, s) (seg, line). resolved_as (filename_of k s) seg line) (targets (i # rest)) ?tr"
      by simp_all
    then show ?thesis by blast
  qed
qed

lemma main_loop_append:
  "main_loop e (xs @ ys) c w =
     (case main_loop e xs c w of None \<Rightarrow> None | Some (c1, w1) \<Rightarrow> main_loop e ys c1 w1)"
proof (induction xs arbitrary: c w)
  case Nil
  show ?case by (cases c) simp
next
  case (Cons i rest)
  obtain s f where c: "c = (s, f)" by (cases c)
  show ?case unfolding c
  proof (cases "hasTheme i")
    case True
    show "main_loop e ((i # rest) @ ys) (s, f) w =
          (case main_loop e (i # rest) (s, f) w of None \<Rightarrow> None
           | Some (c1, w1) \<Rightarrow> main_loop e ys c1 w1)"
    proof (cases "downloadIcon e (key i) ''-light'' w")
      case None
      with True show ?thesis by simp
    next
      case (Some a)
      obtain lightOk w1 where a: "a = (lightOk, w1)" by (cases a)
      show ?thesis
      proof (cases "downloadIcon e (key i) ''-dark'' w1")
        case None
        with True Some a show ?thesis by simp
      next
        case (Some b)
        obtain darkOk w2 where b: "b = (darkOk, w2)" by (cases b)
        from True \<open>downloadIcon e (key i) ''-light'' w = Some a\<close> a Some b show ?thesis
          by (simp add: Cons.IH)
      qed
    qed
  next
    case False
    show "main_loop e ((i # rest) @ ys) (s, f) w =
          (case main_loop e (i # rest) (s, f) w of None \<Rightarrow> None
           | Some (c1, w1) \<Rightarrow> main_loop e ys c1 w1)"
    proof (cases "downloadIcon e (key i) [] w")
      case None
      with False show ?thesis by simp
    next
      case (Some a)
      obtain ok w1 where a: "a = (ok, w1)" by (cases a)
      from False Some a show ?thesis by (simp add: Cons.IH)
    qed
  qed
qed

subsection \<open>Running again\<close>





subsection \<open>Facts about the catalog\<close>


lemma ICONS_length: "length ICONS = 45"
  by (simp add: ICONS_def)



lemma fallback_slug_suffix: "s \<noteq> [] \<Longrightarrow> fallback_slug k s = None"
  by (simp add: fallback_slug_def split: option.splits)


subsection \<open>A run without any source\<close>

lemma all_404_download:
  "download all_404 url w = Some (Inl (HTTP 404), sent url w)"
  by (subst download.simps) (simp add: all_404_def redirect_def settle_def)

lemma all_404_downloadIcon:
  assumes "files w (outputPath all_404 k s) = None"
  shows "downloadIcon all_404 k s w =
         Some (False, console_log (cross @ '' '' @ filename_of k s @ '' (not found)'')
                        (w\<lparr>requests := requests w @ failing_requests k s\<rparr>))"
  using assms
  by (cases "fallback_slug k s")
     (simp_all add: downloadIcon_def existsSync_def all_404_download failing_requests_def sent_def)

lemma all_404_main_loop:
  assumes "files w = Map.empty"
  shows "main_loop all_404 icons (s, f) w =
         Some ((s, f + length icons),
               w\<lparr>requests := requests w @ concat (map (\<lambda>(k, sfx). failing_requests k sfx) (targets icons)),
                 stdout := stdout w @ map (\<lambda>(k, sfx). cross @ '' '' @ filename_of k sfx @ '' (not found)'') (targets icons)\<rparr>)"
  using assms
proof (induction icons arbitrary: s f w)
  case Nil
  then show ?case by simp
next
  case (Cons i rest)
  show ?case
  proof (cases "hasTheme i")
    case True
    let ?w1 = "console_log (cross @ '' '' @ filename_of (key i) ''-light'' @ '' (not found)'')
                        (w\<lparr>requests := requests w @ failing_requests (key i) ''-light''\<rparr>)"
    let ?w2 = "console_log (cross @ '' '' @ filename_of (key i) ''-dark'' @ '' (not found)'')
                        (?w1\<lparr>requests := requests ?w1 @ failing_requests (key i) ''-dark''\<rparr>)"
    have l: "downloadIcon all_404 (key i) ''-light'' w = Some (False, ?w1)"
      by (rule all_404_downloadIcon) (simp add: Cons.prems)
    have d: "downloadIcon all_404 (key i) ''-dark'' ?w1 = Some (False, ?w2)"
      by (rule all_404_downloadIcon) (simp add: Cons.prems)
    have "files ?w2 = Map.empty" by (simp add: Cons.prems)
    from Cons.IH[OF this, of s "f + 1"] True l d show ?thesis
      by (simp add: console_log_def)
  next
    case False
    let ?w1 = "console_log (cross @ '' '' @ filename_of (key i) [] @ '' (not found)'')
                        (w\<lparr>requests := requests w @ failing_requests (key i) []\<rparr>)"
    have o: "downloadIcon all_404 (key i) [] w = Some (False, ?w1)"
      by (rule all_404_downloadIcon) (simp add: Cons.prems)
    have "files ?w1 = Map.empty" by (simp add: Cons.prems)
    from Cons.IH[OF this, of s "f + 1"] False o show ?thesis
      by (simp add: console_log_def)
  qed
qed


subsection \<open>Evaluating the examples\<close>

lemmas demo_defs = demo_def demo_net_def slash_join_def OUTPUT_DIR_def outputPath_def
  filename_of_def CHANHDAI_BASE_def SIMPLE_ICONS_BASE_def existsSync_def



lemma demo_vercel_light:
  "download demo ''https://assets.chanhdai.com/images/tech-stack-icons/vercel-light.svg'' fresh =
   Some (Inr ''<svg>light</svg>'',
         \<lparr>files = Map.empty,
           requests = [''https://assets.chanhdai.com/images/tech-stack-icons/vercel-light.svg'',
                       ''https://mirror.example/vercel-light.svg''],
           stdout = []\<rparr>)"
  by (subst download.simps, simp add: demo_defs fresh_def redirect_def settle_def sent_def,
      subst download.simps, simp add: demo_defs fresh_def redirect_def settle_def sent_def)

lemma demo_vercel_light_icon:
  "downloadIcon demo ''vercel'' ''-light'' fresh = Some (True, light_done)"
  using demo_vercel_light
  by (simp add: downloadIcon_def demo_defs fresh_def light_done_def writeFileSync_def console_log_def)

lemma demo_vercel_dark:
  "download demo ''https://assets.chanhdai.com/images/tech-stack-icons/vercel-dark.svg'' light_done =
   Some (Inl (HTTP 404), sent ''https://assets.chanhdai.com/images/tech-stack-icons/vercel-dark.svg'' light_done)"
  by (subst download.simps) (simp add: demo_defs redirect_def settle_def)

lemma demo_vercel_dark_icon:
  "downloadIcon demo ''vercel'' ''-dark'' light_done =
   Some (False, console_log (cross @ '' vercel-dark.svg (not found)'')
                 (sent ''https://assets.chanhdai.com/images/tech-stack-icons/vercel-dark.svg'' light_done))"
  using demo_vercel_dark
  by (simp add: downloadIcon_def demo_defs fallback_slug_suffix) (simp add: light_done_def)

lemma main_Some:
  assumes "main e w = Some ((success, failed), w')"
  shows "\<exists>w0 w1. main_loop e ICONS (0, 0) w0 = Some ((success, failed), w1)"
  using assms unfolding main_def
  by (simp split: option.splits prod.splits) blast

lemma all_404_main_fresh: "\<exists>w'. main all_404 fresh = Some ((0, 45), w')"
proof -
  let ?w0 = "console_log (''Output: '' @ OUTPUT_DIR all_404 @ nl)
               (console_log (''Downloading tech stack icons...'' @ nl) fresh)"
  have "files ?w0 = Map.empty" by (simp add: fresh_def)
  from all_404_main_loop[OF this, of ICONS 0 0] show ?thesis
    by (simp add: main_def ICONS_length)
qed










lemma demo_vercel_loop:
  "main_loop demo [\<lparr>key = ''vercel'', hasTheme = True, simpleIconsSlug = Some ''vercel''\<rparr>] (0, 0) fresh =
     Some ((0, 1), console_log (cross @ '' vercel-dark.svg (not found)'')
                    (sent ''https://assets.chanhdai.com/images/tech-stack-icons/vercel-dark.svg'' light_done))"
  using demo_vercel_light_icon demo_vercel_dark_icon by simp

lemma main_trace:
  assumes "main e w = Some (c', w')"
  shows "\<exists>tr tail. requests w' = requests w @ concat (map fst tr)
           \<and> stdout w' = stdout w @ [''Downloading tech stack icons...'' @ nl,
                                      ''Output: '' @ OUTPUT_DIR e @ nl] @ map snd tr @ tail
           \<and> length tail = 5
           \<and> list_all2 (\<lambda>(k, s) (seg, line). resolved_as (filename_of k s) seg line) (targets ICONS) tr"
proof -
  let ?w0 = "console_log (''Output: '' @ OUTPUT_DIR e @ nl)
               (console_log (''Downloading tech stack icons...'' @ nl) w)"
  from assms obtain c1 w1 where l: "main_loop e ICONS (0, 0) ?w0 = Some (c1, w1)"
    by (cases "main_loop e ICONS (0, 0) ?w0") (auto simp: main_def)
  obtain s1 f1 where c1: "c1 = (s1, f1)" by (cases c1)
  from assms l c1 have w': "requests w' = requests w1"
    "\<exists>tail. stdout w' = stdout w1 @ tail \<and> length tail = 5"
    by (auto simp: main_def)
  then obtain tail where tail: "stdout w' = stdout w1 @ tail" "length tail = 5" by blast
  from main_loop_trace[OF l] obtain tr where
    "requests w1 = requests ?w0 @ concat (map fst tr)" "stdout w1 = stdout ?w0 @ map snd tr"
    "list_all2 (\<lambda>(k, s) (seg, line). resolved_as (filename_of k s) seg line) (targets ICONS) tr"
    by blast
  with w'(1) tail have "requests w' = requests w @ concat (map fst tr)
           \<and> stdout w' = stdout w @ [''Downloading tech stack icons...'' @ nl,
                                      ''Output: '' @ OUTPUT_DIR e @ nl] @ map snd tr @ tail
           \<and> length tail = 5
           \<and> list_all2 (\<lambda>(k, s) (seg, line). resolved_as (filename_of k s) seg line) (targets ICONS) tr"
    by simp
  then show ?thesis by blast
qed






section \<open>The claims\<close>

text \<open>
  C2. For every key and suffix: when a file already exists at the output path before
  the call, \<open>downloadIcon\<close> returns success at once, sends no network request and
  leaves the file with the content it had, whatever that content is; it only prints the
  line saying that the file exists.
\<close>

theorem existing_file_is_kept:
  assumes "files w (outputPath e k s) = Some content"
  shows "\<exists>w'. downloadIcon e k s w = Some (True, w')
           \<and> requests w' = requests w
           \<and> files w' = files w
           \<and> files w' (outputPath e k s) = Some content
           \<and> stdout w' = stdout w @ [tick @ '' '' @ filename_of k s @ '' (exists)'']"
proof -
  from assms have "existsSync (outputPath e k s) w" by (simp add: existsSync_def)
  from downloadIcon_exists[OF this] assms show ?thesis by simp
qed

theorem existing_file_is_kept_witness:
  "files cached (outputPath demo ''rust'' []) = Some ''old content''
   \<and> (\<exists>w'. downloadIcon demo ''rust'' [] cached = Some (True, w')
           \<and> requests w' = requests cached
           \<and> files w' = files cached
           \<and> files w' (outputPath demo ''rust'' []) = Some ''old content''
           \<and> stdout w' = stdout cached @ [tick @ '' '' @ filename_of ''rust'' [] @ '' (exists)''])"
proof -
  have h: "files cached (outputPath demo ''rust'' []) = Some ''old content''"
    by (simp add: cached_def demo_defs)
  from existing_file_is_kept[OF h] h show ?thesis by simp
qed



text \<open>
  C1. For every catalog entry with \<open>hasTheme\<close> true and each of the suffixes
  \<open>-light\<close> and \<open>-dark\<close>: when the file is missing and the fetch of the suffixed
  file name from the primary source fails, \<open>downloadIcon\<close> returns false and prints
  the not-found line, without creating a file and without any request beyond those of
  the primary fetch: no fallback request is sent, whether or not the entry declares a
  \<open>simpleIconsSlug\<close>.
\<close>

theorem themed_variant_never_falls_back:
  assumes "i \<in> set ICONS" and "hasTheme i" and "s = ''-light'' \<or> s = ''-dark''"
    and "files w (outputPath e (key i) s) = None"
    and "download e (CHANHDAI_BASE @ ''/'' @ key i @ s @ ''.svg'') w = Some (Inl err, w1)"
  shows "\<exists>w'. downloadIcon e (key i) s w = Some (False, w')
           \<and> requests w' = requests w1
           \<and> files w' = files w
           \<and> stdout w' = stdout w @ [cross @ '' '' @ key i @ s @ ''.svg'' @ '' (not found)'']"
proof -
  from assms(3) have s: "s \<noteq> []" by auto
  then have fn: "filename_of (key i) s = key i @ s @ ''.svg''" by (simp add: filename_of_def)
  from download_frame[OF assms(5)] have fr: "files w1 = files w" "stdout w1 = stdout w" by simp_all
  from assms(4,5) fn fallback_slug_suffix[OF s, of "key i"]
  have "downloadIcon e (key i) s w =
        Some (False, console_log (cross @ '' '' @ key i @ s @ ''.svg'' @ '' (not found)'') w1)"
    by (simp add: downloadIcon_def existsSync_def)
  with fr show ?thesis by simp
qed

theorem themed_variant_never_falls_back_witness:
  "\<lparr>key = ''vercel'', hasTheme = True, simpleIconsSlug = Some ''vercel''\<rparr> \<in> set ICONS
   \<and> files light_done (outputPath demo ''vercel'' ''-dark'') = None
   \<and> download demo (CHANHDAI_BASE @ ''/'' @ ''vercel'' @ ''-dark'' @ ''.svg'') light_done =
       Some (Inl (HTTP 404), sent ''https://assets.chanhdai.com/images/tech-stack-icons/vercel-dark.svg'' light_done)
   \<and> (\<exists>w'. downloadIcon demo ''vercel'' ''-dark'' light_done = Some (False, w')
         \<and> requests w' = requests light_done @ [''https://assets.chanhdai.com/images/tech-stack-icons/vercel-dark.svg'']
         \<and> files w' = files light_done
         \<and> stdout w' = stdout light_done @ [cross @ '' vercel-dark.svg (not found)''])"
proof -
  let ?i = "\<lparr>key = ''vercel'', hasTheme = True, simpleIconsSlug = Some ''vercel''\<rparr>"
  have a: "?i \<in> set ICONS" by (simp add: ICONS_def themed_slug_def plain_def plain_slug_def themed_def)
  have b: "hasTheme ?i" by simp
  have c: "''-dark'' = ''-light'' \<or> ''-dark'' = ''-dark''" by simp
  have d: "files light_done (outputPath demo (key ?i) ''-dark'') = None"
    by (simp add: light_done_def demo_defs)
  have e: "download demo (CHANHDAI_BASE @ ''/'' @ key ?i @ ''-dark'' @ ''.svg'') light_done =
       Some (Inl (HTTP 404), sent ''https://assets.chanhdai.com/images/tech-stack-icons/vercel-dark.svg'' light_done)"
    using demo_vercel_dark by (simp add: CHANHDAI_BASE_def)
  from themed_variant_never_falls_back[OF a b c d e] a d e show ?thesis by simp
qed



text \<open>
  C3. For every themed entry the loop resolves the \<open>-light\<close> suffix and then, in
  the state this leaves, the \<open>-dark\<close> suffix. The entry adds one to \<open>success\<close> if
  and only if both returned true, and otherwise one to \<open>failed\<close>, also when exactly
  one of the two succeeded; a variant that succeeded has its file on disk after the
  entry.
\<close>

theorem themed_entry_counts_once:
  assumes "hasTheme i"
    and "downloadIcon e (key i) ''-light'' w = Some (lightOk, w1)"
    and "downloadIcon e (key i) ''-dark'' w1 = Some (darkOk, w2)"
  shows "main_loop e (i # rest) (success, failed) w =
           main_loop e rest (if lightOk \<and> darkOk then (success + 1, failed)
                             else (success, failed + 1)) w2
         \<and> main_loop e [i] (success, failed) w =
             Some (if lightOk \<and> darkOk then (success + 1, failed) else (success, failed + 1), w2)
         \<and> (lightOk \<longrightarrow> files w2 (outputPath e (key i) ''-light'') \<noteq> None)
         \<and> (darkOk \<longrightarrow> files w2 (outputPath e (key i) ''-dark'') \<noteq> None)"
proof -
  have step: "main_loop e (i # r) (success, failed) w =
           main_loop e r (if lightOk \<and> darkOk then (success + 1, failed)
                             else (success, failed + 1)) w2" for r
    using assms by simp
  have light: "files w2 (outputPath e (key i) ''-light'') \<noteq> None" if lightOk
  proof -
    from downloadIcon_ok_iff[OF assms(2)] that
    obtain d where "files w1 (outputPath e (key i) ''-light'') = Some d"
      by (auto simp: existsSync_def)
    from downloadIcon_keeps[OF assms(3) this] show ?thesis by simp
  qed
  have dark: "files w2 (outputPath e (key i) ''-dark'') \<noteq> None" if darkOk
    using downloadIcon_ok_iff[OF assms(3)] that by (simp add: existsSync_def)
  from step[of rest] step[of "[]"] light dark show ?thesis by simp
qed

theorem themed_entry_counts_once_witness:
  "main_loop demo [\<lparr>key = ''vercel'', hasTheme = True, simpleIconsSlug = Some ''vercel''\<rparr>] (0, 0) fresh =
     Some ((0, 1), console_log (cross @ '' vercel-dark.svg (not found)'')
                    (sent ''https://assets.chanhdai.com/images/tech-stack-icons/vercel-dark.svg'' light_done))
   \<and> files (console_log (cross @ '' vercel-dark.svg (not found)'')
              (sent ''https://assets.chanhdai.com/images/tech-stack-icons/vercel-dark.svg'' light_done))
        (outputPath demo ''vercel'' ''-light'') = Some ''<svg>light</svg>''
   \<and> files (console_log (cross @ '' vercel-dark.svg (not found)'')
              (sent ''https://assets.chanhdai.com/images/tech-stack-icons/vercel-dark.svg'' light_done))
        (outputPath demo ''vercel'' ''-dark'') = None"
proof -
  let ?i = "\<lparr>key = ''vercel'', hasTheme = True, simpleIconsSlug = Some ''vercel''\<rparr>"
  have a: "hasTheme ?i" by simp
  have b: "downloadIcon demo (key ?i) ''-light'' fresh = Some (True, light_done)"
    using demo_vercel_light_icon by simp
  have c: "downloadIcon demo (key ?i) ''-dark'' light_done =
     Some (False, console_log (cross @ '' vercel-dark.svg (not found)'')
                   (sent ''https://assets.chanhdai.com/images/tech-stack-icons/vercel-dark.svg'' light_done))"
    using demo_vercel_dark_icon by simp
  from themed_entry_counts_once[OF a b c, of "[]" 0 0] show ?thesis
    by (simp add: light_done_def demo_defs)
qed

text \<open>
  C10. When the loop of \<open>main\<close> has completed, \<open>success + failed\<close> is the number
  of catalog entries, 45: the loop over any list of entries adds the length of the list
  to the sum of the two counters, and each entry adds one to exactly one of them.
\<close>

theorem counters_add_up:
  "(main e w = Some ((success, failed), w') \<longrightarrow> success + failed = length ICONS \<and> length ICONS = 45)
   \<and> (main_loop e icons (s, f) w = Some ((s', f'), w') \<longrightarrow> s' + f' = s + f + length icons)
   \<and> (main_loop e (i # rest) (s, f) w = Some r \<longrightarrow>
        (\<exists>w1. main_loop e rest (s + 1, f) w1 = Some r \<or> main_loop e rest (s, f + 1) w1 = Some r))"
proof (intro conjI impI)
  assume "main e w = Some ((success, failed), w')"
  from main_Some[OF this] obtain w0 w1 where
    "main_loop e ICONS (0, 0) w0 = Some ((success, failed), w1)" by blast
  from main_loop_counts[OF this] show "success + failed = length ICONS" by simp
next
  show "length ICONS = 45" by (rule ICONS_length)
next
  assume "main_loop e icons (s, f) w = Some ((s', f'), w')"
  from main_loop_counts[OF this] show "s' + f' = s + f + length icons" by simp
next
  assume "main_loop e (i # rest) (s, f) w = Some r"
  then show "\<exists>w1. main_loop e rest (s + 1, f) w1 = Some r \<or> main_loop e rest (s, f + 1) w1 = Some r"
  proof (cases rule: main_loop_Cons_cases)
    case (themed lightOk w1 darkOk w2)
    from themed(4) show ?thesis by (cases "lightOk \<and> darkOk") auto
  next
    case (plain ok w1)
    from plain(3) show ?thesis by (cases ok) auto
  qed
qed

theorem counters_add_up_witness:
  "(\<exists>w'. main all_404 fresh = Some ((0, 45), w') \<and> (0::nat) + 45 = length ICONS)
   \<and> (\<exists>w'. main_loop all_404 [plain ''js''] (0, 0) fresh = Some ((0, 1), w')
          \<and> (0::nat) + 1 = 0 + 0 + length [plain ''js'']
          \<and> (\<exists>w1. main_loop all_404 [] (0 + 1, 0) w1 = Some ((0, 1), w')
                  \<or> main_loop all_404 [] (0, 0 + 1) w1 = Some ((0, 1), w')))"
proof -
  from all_404_main_fresh obtain w' where m: "main all_404 fresh = Some ((0, 45), w')" ..
  have "files fresh = Map.empty" by (simp add: fresh_def)
  from all_404_main_loop[OF this, of "[plain ''js'']" 0 0]
  obtain w2 where l: "main_loop all_404 [plain ''js''] (0, 0) fresh = Some ((0, 1), w2)" by simp
  from counters_add_up[of all_404 fresh 0 45 w'] m
  have a: "\<exists>w'. main all_404 fresh = Some ((0, 45), w') \<and> (0::nat) + 45 = length ICONS" by simp
  from counters_add_up[where e = all_404 and w = fresh and icons = "[plain ''js'']" and s = 0
      and f = 0 and s' = 0 and f' = 1 and w' = w2 and i = "plain ''js''" and rest = "[]"
      and r = "((0, 1), w2)"] l
  have b: "(0::nat) + 1 = 0 + 0 + length [plain ''js'']
          \<and> (\<exists>w1. main_loop all_404 [] (0 + 1, 0) w1 = Some ((0, 1), w2)
                  \<or> main_loop all_404 [] (0, 0 + 1) w1 = Some ((0, 1), w2))"
    by blast
  from a l b show ?thesis by blast
qed






text \<open>
  C8. The files are attempted one after the other in catalog order, \<open>-light\<close>
  before \<open>-dark\<close> for a themed entry, and the progress lines are printed in the same
  order. For a loop that completes over any list of entries, the requests sent are the
  concatenation of one segment per target file, in the order of \<open>targets\<close>, and the
  lines printed are one per target file in that order; the segment of a file is empty
  (the file existed) or starts with the request for this file at the primary source.
  A loop over a longer list starts with the loop over each of its prefixes, so the same
  holds for what was done up to any entry. For \<open>main\<close> the progress lines stand in
  this order between the two header lines and the five closing lines.
\<close>

theorem attempts_follow_catalog_order:
  "(main_loop e icons c w = Some (c', w') \<longrightarrow>
      (\<exists>tr. requests w' = requests w @ concat (map fst tr)
           \<and> stdout w' = stdout w @ map snd tr
           \<and> list_all2 (\<lambda>(k, s) (seg, line). resolved_as (filename_of k s) seg line) (targets icons) tr))
   \<and> main_loop e (xs @ ys) c w =
       (case main_loop e xs c w of None \<Rightarrow> None | Some (c1, w1) \<Rightarrow> main_loop e ys c1 w1)
   \<and> (main e w = Some (c', w') \<longrightarrow>
      (\<exists>tr tail. requests w' = requests w @ concat (map fst tr)
           \<and> stdout w' = stdout w @ [''Downloading tech stack icons...'' @ nl,
                                      ''Output: '' @ OUTPUT_DIR e @ nl] @ map snd tr @ tail
           \<and> length tail = 5
           \<and> list_all2 (\<lambda>(k, s) (seg, line). resolved_as (filename_of k s) seg line) (targets ICONS) tr))"
  using main_loop_trace[of e icons c w c' w'] main_loop_append[of e xs ys c w] main_trace[of e w c' w']
  by blast

theorem attempts_follow_catalog_order_witness:
  "main_loop demo [\<lparr>key = ''vercel'', hasTheme = True, simpleIconsSlug = Some ''vercel''\<rparr>] (0, 0) fresh =
     Some ((0, 1), console_log (cross @ '' vercel-dark.svg (not found)'')
                    (sent ''https://assets.chanhdai.com/images/tech-stack-icons/vercel-dark.svg'' light_done))
   \<and> (\<exists>tr. [''https://assets.chanhdai.com/images/tech-stack-icons/vercel-light.svg'',
             ''https://mirror.example/vercel-light.svg'',
             ''https://assets.chanhdai.com/images/tech-stack-icons/vercel-dark.svg''] = concat (map fst tr)
          \<and> [tick @ '' vercel-light.svg (chanhdai)'', cross @ '' vercel-dark.svg (not found)''] = map snd tr
          \<and> list_all2 (\<lambda>(k, s) (seg, line). resolved_as (filename_of k s) seg line)
               [(''vercel'', ''-light''), (''vercel'', ''-dark'')] tr)
   \<and> (\<exists>w' tr tail. main all_404 fresh = Some ((0, 45), w')
          \<and> requests w' = requests fresh @ concat (map fst tr)
          \<and> stdout w' = stdout fresh @ [''Downloading tech stack icons...'' @ nl,
                                      ''Output: '' @ OUTPUT_DIR all_404 @ nl] @ map snd tr @ tail
          \<and> length tail = 5
          \<and> list_all2 (\<lambda>(k, s) (seg, line). resolved_as (filename_of k s) seg line) (targets ICONS) tr)"
proof -
  let ?i = "\<lparr>key = ''vercel'', hasTheme = True, simpleIconsSlug = Some ''vercel''\<rparr>"
  let ?W = "console_log (cross @ '' vercel-dark.svg (not found)'')
              (sent ''https://assets.chanhdai.com/images/tech-stack-icons/vercel-dark.svg'' light_done)"
  note l = demo_vercel_loop
  from attempts_follow_catalog_order[where e = demo and icons = "[?i]" and c = "(0, 0)"
      and w = fresh and c' = "(0, 1)" and w' = ?W, THEN conjunct1, rule_format, OF l]
  have a: "\<exists>tr. [''https://assets.chanhdai.com/images/tech-stack-icons/vercel-light.svg'',
             ''https://mirror.example/vercel-light.svg'',
             ''https://assets.chanhdai.com/images/tech-stack-icons/vercel-dark.svg''] = concat (map fst tr)
          \<and> [tick @ '' vercel-light.svg (chanhdai)'', cross @ '' vercel-dark.svg (not found)''] = map snd tr
          \<and> list_all2 (\<lambda>(k, s) (seg, line). resolved_as (filename_of k s) seg line)
               [(''vercel'', ''-light''), (''vercel'', ''-dark'')] tr"
    by (simp add: fresh_def light_done_def)
  from all_404_main_fresh obtain w' where m: "main all_404 fresh = Some ((0, 45), w')" ..
  from attempts_follow_catalog_order[where e = all_404 and w = fresh and c' = "(0, 45)" and w' = w',
      THEN conjunct2, THEN conjunct2, rule_format, OF m] m
  have b: "\<exists>w' tr tail. main all_404 fresh = Some ((0, 45), w')
          \<and> requests w' = requests fresh @ concat (map fst tr)
          \<and> stdout w' = stdout fresh @ [''Downloading tech stack icons...'' @ nl,
                                      ''Output: '' @ OUTPUT_DIR all_404 @ nl] @ map snd tr @ tail
          \<and> length tail = 5
          \<and> list_all2 (\<lambda>(k, s) (seg, line). resolved_as (filename_of k s) seg line) (targets ICONS) tr"
    by blast
  from l a b show ?thesis by blast
qed




end
